theory Spec2Isabelle
  imports Main
begin

section \<open>Voice-driven name cycler: data model\<close>

text \<open>
  The development embeds \<^verbatim>\<open>bibb.py\<close> (classes \<^verbatim>\<open>Config\<close>, \<^verbatim>\<open>CSVLogger\<close>,
  \<^verbatim>\<open>VoiceCycler\<close>) and the main loop of \<^verbatim>\<open>voice.py\<close>. Python integers are
  \<open>int\<close>, Python strings are \<open>string\<close> (restricted to ASCII text), exceptions are
  values, and everything a method does to the outside world (logger records, sleeping,
  printing, speech requests, recogniser calls) is recorded, in order, in a list of events.
\<close>

subsection \<open>Configuration (class Config)\<close>

record config =
  PHRASE :: string
  REPLIES :: "string list"
  MAX_RETRY :: int
  QUEUE_MAXSIZE :: int

definition Config :: config where
  "Config = \<lparr> PHRASE = ''who is he'',
              REPLIES = [''Vaibhav'', ''Manas'', ''Dev''],
              MAX_RETRY = 3,
              QUEUE_MAXSIZE = 32 \<rparr>"

subsection \<open>Exceptions, logger records and observable events\<close>

datatype py_error = ZeroDivisionError | QueueFull | RecognizerFailure

datatype level = DEBUG | INFO | WARNING | ERROR

text \<open>One constructor per logger call of the source; the arguments are the values the
  source interpolates into the message.\<close>

datatype message =
    Recognized int string
  | CouldNotUnderstand
  | ApiRequestError int
  | TriggerDetected string
  | TtsSpeakFailed
  | LoggedCsvRow string string string
  | ErrorWritingCsv
  | CycleIndex int string
  | AudioQueued
  | QueueFullDropping

datatype event =
    Log level message
  | CallRecognizer int
  | Sleep nat
  | Print string
  | Speak string

subsection \<open>Strings: \<^verbatim>\<open>str.lower\<close> and the \<^verbatim>\<open>in\<close> operator\<close>

text \<open>\<^verbatim>\<open>str.lower\<close> on ASCII text: the 26 capital letters are replaced, every other
  character is kept.\<close>

definition lower_char :: "char \<Rightarrow> char" where
  "lower_char c =
     (case map_of (zip ''ABCDEFGHIJKLMNOPQRSTUVWXYZ'' ''abcdefghijklmnopqrstuvwxyz'') c of
        None \<Rightarrow> c
      | Some l \<Rightarrow> l)"

definition lower :: "string \<Rightarrow> string" where
  "lower s = map lower_char s"

fun startswith :: "string \<Rightarrow> string \<Rightarrow> bool" where
  "startswith s [] = True"
| "startswith [] (p # ps) = False"
| "startswith (c # cs) (p # ps) = (c = p \<and> startswith cs ps)"

text \<open>\<^verbatim>\<open>p in s\<close> for strings: \<open>p\<close> occurs in \<open>s\<close> as a contiguous block.\<close>

fun py_in :: "string \<Rightarrow> string \<Rightarrow> bool" where
  "py_in p [] = (p = [])"
| "py_in p (c # cs) = (startswith (c # cs) p \<or> py_in p cs)"

subsection \<open>The cycler's mutable state\<close>

text \<open>
  \<open>count\<close>, \<open>running\<close> and \<open>audio_queue\<close> are the attributes of \<^verbatim>\<open>VoiceCycler\<close>
  that its methods update; \<open>csv_rows\<close> is the sequence of data rows
  \<open>(timestamp, recognized_text, reply)\<close> held by the file \<^verbatim>\<open>interactions.csv\<close>.
\<close>

record 'a cycler =
  count :: int
  running :: bool
  audio_queue :: "'a list"
  csv_rows :: "(string \<times> string \<times> string) list"

section \<open>Reply cycling (VoiceCycler.\_get\_next\_reply)\<close>

definition get_next_reply ::
  "config \<Rightarrow> 'a cycler \<Rightarrow> py_error + (string \<times> 'a cycler \<times> event list)" where
  "get_next_reply cfg st =
     (if length (REPLIES cfg) = 0 then Inl ZeroDivisionError
      else
        let idx = count st mod int (length (REPLIES cfg));
            reply = REPLIES cfg ! nat idx
        in Inr (reply, st\<lparr>count := count st + 1\<rparr>,
                [Log DEBUG (CycleIndex (count st) reply)]))"

text \<open>\<open>n\<close> successive calls of \<^verbatim>\<open>_get_next_reply\<close>, each on the state the previous
  one left; the replies are collected in call order.\<close>

fun next_replies :: "config \<Rightarrow> nat \<Rightarrow> 'a cycler \<Rightarrow> py_error + (string list \<times> 'a cycler)" where
  "next_replies cfg 0 st = Inr ([], st)"
| "next_replies cfg (Suc n) st =
     (case get_next_reply cfg st of
        Inl e \<Rightarrow> Inl e
      | Inr (reply, st', ev) \<Rightarrow>
          (case next_replies cfg n st' of
             Inl e \<Rightarrow> Inl e
           | Inr (rs, st'') \<Rightarrow> Inr (reply # rs, st'')))"

section \<open>CSV log sink (CSVLogger.log\_interaction)\<close>

text \<open>
  What a worker meets outside the program while it handles one snippet:
  \<open>recognize_google k\<close> is the outcome of the \<open>k\<close>-th call of the recogniser on the
  snippet, \<open>speak_raises\<close> tells whether \<^verbatim>\<open>tts.speak\<close> raises, \<open>csv_write_ok\<close>
  whether opening and appending to the CSV file succeeds, and \<open>now\<close> is the ISO timestamp
  read from the clock.
\<close>

datatype recognition =
    Text string
  | UnknownValueError
  | RequestError
  | OtherException

record env =
  recognize_google :: "int \<Rightarrow> recognition"
  speak_raises :: bool
  csv_write_ok :: bool
  now :: string

text \<open>The \<^verbatim>\<open>try\<close> block appends one row; any exception is caught, logged at error
  level and dropped, and the method returns normally in both cases.\<close>

definition log_interaction :: "env \<Rightarrow> string \<Rightarrow> string \<Rightarrow> 'a cycler \<Rightarrow> 'a cycler \<times> event list" where
  "log_interaction e recognized_text reply st =
     (let timestamp = now e
      in if csv_write_ok e
         then (st\<lparr>csv_rows := csv_rows st @ [(timestamp, recognized_text, reply)]\<rparr>,
               [Log DEBUG (LoggedCsvRow timestamp recognized_text reply)])
         else (st, [Log ERROR ErrorWritingCsv]))"

section \<open>Processing one snippet (VoiceCycler.\_process\_audio)\<close>

text \<open>How the \<^verbatim>\<open>for attempt in range(1, MAX_RETRY + 1)\<close> loop is left: by
  \<^verbatim>\<open>break\<close> or exhaustion with the value of \<^verbatim>\<open>recognized_text\<close>, by
  \<^verbatim>\<open>return\<close>, or by an exception that no handler catches.\<close>

datatype loop_exit = Proceed string | Return | Raised py_error

fun retry_loop :: "config \<Rightarrow> env \<Rightarrow> int list \<Rightarrow> loop_exit \<times> event list" where
  "retry_loop cfg e [] = (Proceed [], [])"
| "retry_loop cfg e (attempt # rest) =
     (case recognize_google e attempt of
        Text t \<Rightarrow>
          (Proceed (lower t),
           [CallRecognizer attempt, Log DEBUG (Recognized attempt (lower t))])
      | UnknownValueError \<Rightarrow>
          (Return, [CallRecognizer attempt, Log WARNING CouldNotUnderstand])
      | RequestError \<Rightarrow>
          if attempt = MAX_RETRY cfg
          then (Return, [CallRecognizer attempt, Log ERROR (ApiRequestError attempt)])
          else (case retry_loop cfg e rest of
                  (x, ev) \<Rightarrow>
                    (x, [CallRecognizer attempt, Log ERROR (ApiRequestError attempt), Sleep 1] @ ev))
      | OtherException \<Rightarrow> (Raised RecognizerFailure, [CallRecognizer attempt]))"

datatype outcome = Done | Uncaught py_error

text \<open>The body of \<^verbatim>\<open>if self.config.PHRASE in recognized_text\<close>: take the next reply,
  announce it, ask the speech engine to say it, append the CSV row. Neither the speech
  request nor the CSV append can make the worker fail. \<open>Speak reply\<close> stands for the call
  \<^verbatim>\<open>self.tts.speak(reply)\<close>; what the speech thread does afterwards is not part of the
  worker.\<close>

definition react :: "config \<Rightarrow> env \<Rightarrow> string \<Rightarrow> 'a cycler \<Rightarrow> outcome \<times> 'a cycler \<times> event list" where
  "react cfg e recognized_text st =
     (case get_next_reply cfg st of
        Inl err \<Rightarrow> (Uncaught err, st, [])
      | Inr (reply, st1, ev1) \<Rightarrow>
          (case log_interaction e recognized_text reply st1 of
             (st2, ev2) \<Rightarrow>
               (Done, st2,
                ev1 @ [Log INFO (TriggerDetected reply), Print reply, Speak reply]
                    @ (if speak_raises e then [Log ERROR TtsSpeakFailed] else [])
                    @ ev2)))"

definition process_audio :: "config \<Rightarrow> env \<Rightarrow> 'a cycler \<Rightarrow> outcome \<times> 'a cycler \<times> event list" where
  "process_audio cfg e st =
     (case retry_loop cfg e [1..MAX_RETRY cfg] of
        (Raised err, ev) \<Rightarrow> (Uncaught err, st, ev)
      | (Return, ev) \<Rightarrow> (Done, st, ev)
      | (Proceed recognized_text, ev) \<Rightarrow>
          if py_in (PHRASE cfg) recognized_text
          then (case react cfg e recognized_text st of
                  (r, st', ev') \<Rightarrow> (r, st', ev @ ev'))
          else (Done, st, ev))"

section \<open>Bounded snippet queue (the listener callback)\<close>

text \<open>\<^verbatim>\<open>queue.Queue.put_nowait\<close>: a queue built with a positive \<open>maxsize\<close> raises
  \<^verbatim>\<open>Full\<close> when it already holds \<open>maxsize\<close> items; otherwise the item goes to the
  back.\<close>

definition put_nowait :: "int \<Rightarrow> 'a list \<Rightarrow> 'a \<Rightarrow> py_error + 'a list" where
  "put_nowait maxsize q x =
     (if 0 < maxsize \<and> maxsize \<le> int (length q) then Inl QueueFull else Inr (q @ [x]))"

definition callback :: "config \<Rightarrow> 'a \<Rightarrow> 'a cycler \<Rightarrow> 'a cycler \<times> event list" where
  "callback cfg audio st =
     (case put_nowait (QUEUE_MAXSIZE cfg) (audio_queue st) audio of
        Inr q \<Rightarrow> (st\<lparr>audio_queue := q\<rparr>, [Log DEBUG AudioQueued])
      | Inl err \<Rightarrow> (st, [Log WARNING QueueFullDropping]))"

section \<open>The single-threaded variant (voice.py)\<close>

definition voice_REPLIES :: "string list" where
  "voice_REPLIES = [''Vaibhav'', ''Manas'', ''Dev'']"

text \<open>The two statements of the main loop that pick the name and advance the counter.\<close>

definition voice_pick :: "int \<Rightarrow> string \<times> int" where
  "voice_pick cnt =
     (let name = voice_REPLIES ! nat (cnt mod int (length voice_REPLIES))
      in (name, cnt + 1))"

text \<open>One iteration of \<^verbatim>\<open>while True\<close>, given the text the listener returned.\<close>

definition voice_main_step :: "string \<Rightarrow> int \<Rightarrow> int \<times> event list" where
  "voice_main_step text cnt =
     (if py_in ''who is he'' text
      then (case voice_pick cnt of (name, cnt') \<Rightarrow> (cnt', [Print name]))
      else (cnt, []))"

section \<open>Workers sharing the counter\<close>

text \<open>
  \<^verbatim>\<open>process_queue\<close> starts one thread per snippet and every thread that detects the
  phrase runs \<^verbatim>\<open>_get_next_reply\<close> on the same object, without a lock. A worker inside
  the method is at one of its five statements (lines 295 to 299), holding the local
  variables assigned so far; each statement is taken as one indivisible step, and a
  schedule says which worker moves next.
\<close>

datatype worker =
    Line295
  | Line296 int
  | Line297 string
  | Line298 string
  | Line299 string
  | Returned string
  | Crashed py_error

definition step_worker :: "config \<Rightarrow> worker \<Rightarrow> 'a cycler \<Rightarrow> worker \<times> 'a cycler \<times> event list" where
  "step_worker cfg w st =
     (case w of
        Line295 \<Rightarrow>
          if length (REPLIES cfg) = 0 then (Crashed ZeroDivisionError, st, [])
          else (Line296 (count st mod int (length (REPLIES cfg))), st, [])
      | Line296 idx \<Rightarrow> (Line297 (REPLIES cfg ! nat idx), st, [])
      | Line297 reply \<Rightarrow> (Line298 reply, st, [Log DEBUG (CycleIndex (count st) reply)])
      | Line298 reply \<Rightarrow> (Line299 reply, st\<lparr>count := count st + 1\<rparr>, [])
      | Line299 reply \<Rightarrow> (Returned reply, st, [])
      | Returned reply \<Rightarrow> (Returned reply, st, [])
      | Crashed err \<Rightarrow> (Crashed err, st, []))"

fun run_schedule ::
  "config \<Rightarrow> nat list \<Rightarrow> worker list \<times> 'a cycler \<times> event list \<Rightarrow> worker list \<times> 'a cycler \<times> event list" where
  "run_schedule cfg [] s = s"
| "run_schedule cfg (i # sched) (ws, st, ev) =
     (if i < length ws
      then (case step_worker cfg (ws ! i) st of
              (w', st', ev') \<Rightarrow> run_schedule cfg sched (ws[i := w'], st', ev @ ev'))
      else run_schedule cfg sched (ws, st, ev))"

section \<open>The dispatch loop on a clock (VoiceCycler.process\_queue and run)\<close>

text \<open>
  Time is counted in milliseconds from the start of \<^verbatim>\<open>process_queue\<close>. The only
  statements that take time are the blocking ones: \<^verbatim>\<open>audio_queue.get(timeout=1.0)\<close> in
  the dispatch loop and, in a worker, the recogniser call and \<^verbatim>\<open>time.sleep(1)\<close>.
  The signal handler sets \<^verbatim>\<open>self.running = False\<close> at time \<open>T\<close>, so the flag read at a
  loop head at time \<open>t\<close> is true exactly when \<open>t < T\<close>.
\<close>

definition GET_TIMEOUT :: nat where
  "GET_TIMEOUT = 1000"

text \<open>What the producer side does during one call of \<^verbatim>\<open>get\<close>: a snippet is at the head
  of the queue \<open>d\<close> milliseconds after the call (\<open>0\<close> if it is already there), or none
  comes.\<close>

datatype 'a arrival = Arrives 'a nat | Nothing

text \<open>\<^verbatim>\<open>queue.Queue.get(timeout)\<close>: the item and the time at which the call returns it,
  or \<^verbatim>\<open>Empty\<close> raised when the timeout has elapsed.\<close>

definition queue_get :: "'a arrival \<Rightarrow> nat \<Rightarrow> 'a option \<times> nat" where
  "queue_get arr t =
     (case arr of
        Arrives audio d \<Rightarrow>
          if d \<le> GET_TIMEOUT then (Some audio, t + d) else (None, t + GET_TIMEOUT)
      | Nothing \<Rightarrow> (None, t + GET_TIMEOUT))"

text \<open>The loop has left (at the given time), or the arrivals considered are used up while
  the flag is still set.\<close>

datatype loop_end = Exited nat | StillRunning nat

text \<open>\<^verbatim>\<open>while self.running\<close>: one list element per iteration. The result lists the
  threads started, each with its snippet and the time of its start.\<close>

fun process_queue :: "nat \<Rightarrow> 'a arrival list \<Rightarrow> nat \<Rightarrow> ('a \<times> nat) list \<times> loop_end" where
  "process_queue T [] t = ([], if T \<le> t then Exited t else StillRunning t)"
| "process_queue T (arr # rest) t =
     (if T \<le> t then ([], Exited t)
      else (case queue_get arr t of
              (None, t') \<Rightarrow> process_queue T rest t'
            | (Some audio, t') \<Rightarrow>
                (case process_queue T rest t' of
                   (spawned, e) \<Rightarrow> ((audio, t') # spawned, e))))"

text \<open>The time a worker spends asleep between attempts.\<close>

fun sleep_ms :: "event list \<Rightarrow> nat" where
  "sleep_ms [] = 0"
| "sleep_ms (Sleep n # ev) = 1000 * n + sleep_ms ev"
| "sleep_ms (x # ev) = sleep_ms ev"

text \<open>The time \<^verbatim>\<open>_process_audio\<close> needs for a snippet: what its recogniser calls take
  altogether (\<open>latency\<close>) plus its sleeps.\<close>

definition worker_time :: "config \<Rightarrow> env \<Rightarrow> nat \<Rightarrow> nat" where
  "worker_time cfg e latency = latency + sleep_ms (snd (retry_loop cfg e [1..MAX_RETRY cfg]))"

datatype fate = Completed | Abandoned

text \<open>
  \<^verbatim>\<open>run\<close> followed by the return of \<^verbatim>\<open>main\<close>. Every worker is started with
  \<^verbatim>\<open>daemon=True\<close> and nothing joins it, so the process ends when the dispatch loop has
  been left, and a daemon thread that has not finished by then is stopped where it is.
  The result gives every worker started, its starting time and its fate, and the time at
  which the loop was left; it is \<open>None\<close> when the loop has not been left within the
  arrivals considered.
\<close>

definition run ::
  "config \<Rightarrow> nat \<Rightarrow> 'a arrival list \<Rightarrow> ('a \<Rightarrow> env) \<Rightarrow> ('a \<Rightarrow> nat)
     \<Rightarrow> (('a \<times> nat \<times> fate) list \<times> nat) option" where
  "run cfg T arrivals envs latency =
     (case process_queue T arrivals 0 of
        (spawned, Exited te) \<Rightarrow>
          Some (map (\<lambda>(audio, s).
                       (audio, s,
                        if s + worker_time cfg (envs audio) (latency audio) \<le> te
                        then Completed else Abandoned))
                    spawned,
                te)
      | (spawned, StillRunning t) \<Rightarrow> None)"

section \<open>Normalisation as the specification words it\<close>

definition is_space :: "char \<Rightarrow> bool" where
  "is_space c \<longleftrightarrow>
     c \<in> set [CHR '' '', CHR 0x09, CHR 0x0A, CHR 0x0B, CHR 0x0C, CHR 0x0D,
              CHR 0x1C, CHR 0x1D, CHR 0x1E, CHR 0x1F]"

definition strip :: "string \<Rightarrow> string" where
  "strip s = rev (dropWhile is_space (rev (dropWhile is_space s)))"

text \<open>"normalize (lowercase, trim)": this function follows the specification's words, not
  the source, and is only compared with what the source does.\<close>

definition spec_normalize :: "string \<Rightarrow> string" where
  "spec_normalize t = strip (lower t)"

section \<open>Example inputs\<close>

text \<open>The cycler as \<^verbatim>\<open>__init__\<close> leaves it, with a CSV file that holds only the header
  row; snippets are numbered.\<close>

definition fresh :: "nat cycler" where
  "fresh = \<lparr> count = 0, running = False, audio_queue = [], csv_rows = [] \<rparr>"

text \<open>A recogniser that returns the phrase capitalised and padded with blanks.\<close>

definition padded_env :: env where
  "padded_env = \<lparr> recognize_google = (\<lambda>k. Text ''  Who Is He ''),
                   speak_raises = False, csv_write_ok = True,
                   now = ''2025-01-01T10:00:00'' \<rparr>"

text \<open>A recogniser that is unreachable twice and then returns the phrase.\<close>

definition flaky_env :: env where
  "flaky_env = \<lparr> recognize_google = (\<lambda>k. if k = 3 then Text ''Who is he'' else RequestError),
                  speak_raises = False, csv_write_ok = True,
                  now = ''2025-01-01T10:00:05'' \<rparr>"

text \<open>A recogniser that is never reachable.\<close>

definition offline_env :: env where
  "offline_env = \<lparr> recognize_google = (\<lambda>k. RequestError),
                    speak_raises = False, csv_write_ok = True,
                    now = ''2025-01-01T10:00:10'' \<rparr>"

text \<open>A recogniser that is unreachable once and then hears no speech.\<close>

definition silent_env :: env where
  "silent_env = \<lparr> recognize_google = (\<lambda>k. if k = 2 then UnknownValueError else RequestError),
                   speak_raises = False, csv_write_ok = True,
                   now = ''2025-01-01T10:00:15'' \<rparr>"

text \<open>A recogniser that returns the phrase while the CSV file cannot be written.\<close>

definition readonly_env :: env where
  "readonly_env = \<lparr> recognize_google = (\<lambda>k. Text ''who is he''),
                     speak_raises = False, csv_write_ok = False,
                     now = ''2025-01-01T10:00:20'' \<rparr>"

section \<open>The reply cycle\<close>

lemma nat_mod_int: "nat (int c mod int m) = c mod m"
  by (simp flip: zmod_int)

lemma get_next_reply_at:
  assumes "REPLIES cfg \<noteq> []" and "count st = int c"
  shows "get_next_reply cfg st =
           Inr (REPLIES cfg ! (c mod length (REPLIES cfg)), st\<lparr>count := int (Suc c)\<rparr>,
                [Log DEBUG (CycleIndex (int c) (REPLIES cfg ! (c mod length (REPLIES cfg))))])"
  using assms by (simp add: get_next_reply_def Let_def nat_mod_int add.commute)

lemma next_replies_from:
  assumes "REPLIES cfg \<noteq> []" and "count st = int c"
  shows "next_replies cfg n st =
           Inr (map (\<lambda>k. REPLIES cfg ! (k mod length (REPLIES cfg))) [c..<c + n],
                st\<lparr>count := int (c + n)\<rparr>)"
  using assms
proof (induction n arbitrary: st c)
  case 0
  then show ?case by simp
next
  case (Suc n)
  have step: "get_next_reply cfg st =
           Inr (REPLIES cfg ! (c mod length (REPLIES cfg)), st\<lparr>count := int (Suc c)\<rparr>,
                [Log DEBUG (CycleIndex (int c) (REPLIES cfg ! (c mod length (REPLIES cfg))))])"
    using Suc.prems by (rule get_next_reply_at)
  have rest: "next_replies cfg n (st\<lparr>count := int (Suc c)\<rparr>) =
           Inr (map (\<lambda>k. REPLIES cfg ! (k mod length (REPLIES cfg))) [Suc c..<Suc c + n],
                st\<lparr>count := int (Suc c + n)\<rparr>)"
    using Suc.IH [of "st\<lparr>count := int (Suc c)\<rparr>" "Suc c"] Suc.prems(1) by simp
  have "next_replies cfg (Suc n) st =
           Inr (REPLIES cfg ! (c mod length (REPLIES cfg)) #
                map (\<lambda>k. REPLIES cfg ! (k mod length (REPLIES cfg))) [Suc c..<Suc c + n],
                st\<lparr>count := int (Suc c + n)\<rparr>)"
    by (simp only: next_replies.simps step rest sum.case prod.case)
  then show ?case
    by (simp add: upt_conv_Cons del: upt_Suc)
qed

text \<open>
  Calls made one after another, each starting after the previous one has returned: from
  the counter value 0 the \<open>N\<close>-th call (counting from 0) returns
  \<open>replies[N mod len(replies)]\<close>, for every number of calls and every non-empty reply
  sequence; with the default sequence the first four calls return Vaibhav, Manas, Dev and
  Vaibhav again. Nothing in the program makes the calls happen one after another: see the
  section on two workers below.
\<close>

lemma serial_cycle_order:
  assumes "count st = 0"
  shows "(REPLIES cfg \<noteq> [] \<longrightarrow>
            next_replies cfg n st =
              Inr (map (\<lambda>k. REPLIES cfg ! (k mod length (REPLIES cfg))) [0..<n],
                   st\<lparr>count := int n\<rparr>))
         \<and> next_replies Config 4 st =
              Inr ([''Vaibhav'', ''Manas'', ''Dev'', ''Vaibhav''], st\<lparr>count := 4\<rparr>)"
proof -
  have general: "next_replies cfg' m st =
              Inr (map (\<lambda>k. REPLIES cfg' ! (k mod length (REPLIES cfg'))) [0..<m],
                   st\<lparr>count := int m\<rparr>)" if "REPLIES cfg' \<noteq> []" for cfg' m
    using next_replies_from [OF that, of st 0 m] assms by simp
  have "REPLIES Config \<noteq> []" by (simp add: Config_def)
  from general [OF this, of 4]
  have "next_replies Config 4 st =
              Inr ([''Vaibhav'', ''Manas'', ''Dev'', ''Vaibhav''], st\<lparr>count := 4\<rparr>)"
    by (simp add: Config_def upt_conv_Cons)
  with general show ?thesis by blast
qed

lemma serial_cycle_order_example:
  "count fresh = 0 \<and> REPLIES Config \<noteq> [] \<and>
   next_replies Config 7 fresh =
     Inr ([''Vaibhav'', ''Manas'', ''Dev'', ''Vaibhav'', ''Manas'', ''Dev'', ''Vaibhav''],
          fresh\<lparr>count := 7\<rparr>)"
proof -
  have c: "count fresh = 0" by (simp add: fresh_def)
  have r: "REPLIES Config \<noteq> []" by (simp add: Config_def)
  from serial_cycle_order [OF c, of Config 7] r
  have "next_replies Config 7 fresh =
          Inr (map (\<lambda>k. REPLIES Config ! (k mod length (REPLIES Config))) [0..<7],
               fresh\<lparr>count := int 7\<rparr>)"
    by blast
  then show ?thesis using c r by (simp add: Config_def upt_conv_Cons)
qed

section \<open>The retry loop\<close>

text \<open>Attempts that fail with a request error before the last allowed one each cost a
  recogniser call, an error record and a one-second sleep, and the loop goes on.\<close>

lemma retry_loop_skip:
  assumes "\<forall>j. a \<le> j \<and> j < k \<longrightarrow> recognize_google e j = RequestError"
    and "a \<le> k" and "k \<le> MAX_RETRY cfg"
  shows "retry_loop cfg e [a..MAX_RETRY cfg] =
           (fst (retry_loop cfg e [k..MAX_RETRY cfg]),
            concat (map (\<lambda>j. [CallRecognizer j, Log ERROR (ApiRequestError j), Sleep 1]) [a..k - 1])
              @ snd (retry_loop cfg e [k..MAX_RETRY cfg]))"
  using assms
proof (induction "nat (k - a)" arbitrary: a)
  case 0
  then have "a = k" by simp
  then show ?case by simp
next
  case (Suc d)
  then have lt: "a < k" by linarith
  have here: "recognize_google e a = RequestError"
    using Suc.prems(1) lt by simp
  have ne: "a \<noteq> MAX_RETRY cfg"
    using lt Suc.prems(3) by simp
  have unroll: "[a..MAX_RETRY cfg] = a # [a + 1..MAX_RETRY cfg]"
    using lt Suc.prems(3) by (simp add: upto_rec1)
  have unroll2: "[a..k - 1] = a # [a + 1..k - 1]"
    using lt by (simp add: upto_rec1)
  have IH: "retry_loop cfg e [a + 1..MAX_RETRY cfg] =
           (fst (retry_loop cfg e [k..MAX_RETRY cfg]),
            concat (map (\<lambda>j. [CallRecognizer j, Log ERROR (ApiRequestError j), Sleep 1]) [a + 1..k - 1])
              @ snd (retry_loop cfg e [k..MAX_RETRY cfg]))"
  proof (rule Suc.hyps(1))
    show "d = nat (k - (a + 1))" using Suc.hyps(2) by linarith
    show "\<forall>j. a + 1 \<le> j \<and> j < k \<longrightarrow> recognize_google e j = RequestError"
      using Suc.prems(1) by simp
    show "a + 1 \<le> k" using lt by simp
    show "k \<le> MAX_RETRY cfg" by (rule Suc.prems(3))
  qed
  show ?case
    by (simp add: unroll unroll2 here ne IH)
qed

lemma retry_loop_text:
  assumes "1 \<le> k" and "k \<le> MAX_RETRY cfg"
    and "\<forall>j. 1 \<le> j \<and> j < k \<longrightarrow> recognize_google e j = RequestError"
    and "recognize_google e k = Text t"
  shows "retry_loop cfg e [1..MAX_RETRY cfg] =
           (Proceed (lower t),
            concat (map (\<lambda>j. [CallRecognizer j, Log ERROR (ApiRequestError j), Sleep 1]) [1..k - 1])
              @ [CallRecognizer k, Log DEBUG (Recognized k (lower t))])"
proof -
  have "[k..MAX_RETRY cfg] = k # [k + 1..MAX_RETRY cfg]"
    using assms(2) by (simp add: upto_rec1)
  then have "retry_loop cfg e [k..MAX_RETRY cfg] =
           (Proceed (lower t), [CallRecognizer k, Log DEBUG (Recognized k (lower t))])"
    using assms(4) by simp
  with retry_loop_skip [OF assms(3) assms(1) assms(2)] show ?thesis by simp
qed

lemma retry_loop_unknown:
  assumes "1 \<le> k" and "k \<le> MAX_RETRY cfg"
    and "\<forall>j. 1 \<le> j \<and> j < k \<longrightarrow> recognize_google e j = RequestError"
    and "recognize_google e k = UnknownValueError"
  shows "retry_loop cfg e [1..MAX_RETRY cfg] =
           (Return,
            concat (map (\<lambda>j. [CallRecognizer j, Log ERROR (ApiRequestError j), Sleep 1]) [1..k - 1])
              @ [CallRecognizer k, Log WARNING CouldNotUnderstand])"
proof -
  have "[k..MAX_RETRY cfg] = k # [k + 1..MAX_RETRY cfg]"
    using assms(2) by (simp add: upto_rec1)
  then have "retry_loop cfg e [k..MAX_RETRY cfg] =
           (Return, [CallRecognizer k, Log WARNING CouldNotUnderstand])"
    using assms(4) by simp
  with retry_loop_skip [OF assms(3) assms(1) assms(2)] show ?thesis by simp
qed

lemma retry_loop_exhausted:
  assumes "1 \<le> MAX_RETRY cfg"
    and "\<forall>j. 1 \<le> j \<and> j \<le> MAX_RETRY cfg \<longrightarrow> recognize_google e j = RequestError"
  shows "retry_loop cfg e [1..MAX_RETRY cfg] =
           (Return,
            concat (map (\<lambda>j. [CallRecognizer j, Log ERROR (ApiRequestError j), Sleep 1])
                        [1..MAX_RETRY cfg - 1])
              @ [CallRecognizer (MAX_RETRY cfg), Log ERROR (ApiRequestError (MAX_RETRY cfg))])"
proof -
  have last: "recognize_google e (MAX_RETRY cfg) = RequestError"
    using assms by simp
  have before: "\<forall>j. 1 \<le> j \<and> j < MAX_RETRY cfg \<longrightarrow> recognize_google e j = RequestError"
    using assms(2) by simp
  have "[MAX_RETRY cfg..MAX_RETRY cfg] = [MAX_RETRY cfg]"
    by simp
  then have "retry_loop cfg e [MAX_RETRY cfg..MAX_RETRY cfg] =
           (Return, [CallRecognizer (MAX_RETRY cfg), Log ERROR (ApiRequestError (MAX_RETRY cfg))])"
    using last by simp
  with retry_loop_skip [OF before assms(1), of cfg] show ?thesis by simp
qed

lemma react_ok:
  assumes "REPLIES cfg \<noteq> []"
  shows "react cfg e text st =
     (let reply = REPLIES cfg ! nat (count st mod int (length (REPLIES cfg)))
      in (Done,
          st\<lparr>count := count st + 1,
             csv_rows := (if csv_write_ok e then csv_rows st @ [(now e, text, reply)]
                          else csv_rows st)\<rparr>,
          [Log DEBUG (CycleIndex (count st) reply), Log INFO (TriggerDetected reply),
           Print reply, Speak reply]
          @ (if speak_raises e then [Log ERROR TtsSpeakFailed] else [])
          @ (if csv_write_ok e then [Log DEBUG (LoggedCsvRow (now e) text reply)]
             else [Log ERROR ErrorWritingCsv])))"
  using assms by (simp add: react_def get_next_reply_def log_interaction_def Let_def)

section \<open>Normalisation of the recognised text\<close>

text \<open>
  Claim C2, as amended. When the recogniser succeeds (after any number of request errors
  on earlier attempts), the text is lowercased and nothing else: surrounding whitespace is
  kept. The phrase check is made on that lowercased text, and the same text goes into the
  reaction.
\<close>

theorem normalize_lowercase_only:
  assumes "1 \<le> k" and "k \<le> MAX_RETRY cfg"
    and "\<forall>j. 1 \<le> j \<and> j < k \<longrightarrow> recognize_google e j = RequestError"
    and "recognize_google e k = Text t"
  shows "fst (retry_loop cfg e [1..MAX_RETRY cfg]) = Proceed (lower t)
         \<and> process_audio cfg e st =
             (if py_in (PHRASE cfg) (lower t)
              then (case react cfg e (lower t) st of
                      (r, st', ev') \<Rightarrow> (r, st', snd (retry_loop cfg e [1..MAX_RETRY cfg]) @ ev'))
              else (Done, st, snd (retry_loop cfg e [1..MAX_RETRY cfg])))"
  using retry_loop_text [OF assms] by (simp add: process_audio_def)

theorem normalize_lowercase_only_witness:
  "fst (retry_loop Config padded_env [1..MAX_RETRY Config]) = Proceed ''  who is he ''
   \<and> process_audio Config padded_env fresh =
       (Done,
        fresh\<lparr>count := 1,
              csv_rows := [(''2025-01-01T10:00:00'', ''  who is he '', ''Vaibhav'')]\<rparr>,
        [CallRecognizer 1, Log DEBUG (Recognized 1 ''  who is he ''),
         Log DEBUG (CycleIndex 0 ''Vaibhav''), Log INFO (TriggerDetected ''Vaibhav''),
         Print ''Vaibhav'', Speak ''Vaibhav'',
         Log DEBUG (LoggedCsvRow ''2025-01-01T10:00:00'' ''  who is he '' ''Vaibhav'')])"
proof -
  have a: "(1::int) \<le> 1" by simp
  have b: "1 \<le> MAX_RETRY Config" by (simp add: Config_def)
  have c: "\<forall>j. 1 \<le> j \<and> j < 1 \<longrightarrow> recognize_google padded_env j = RequestError" by auto
  have d: "recognize_google padded_env 1 = Text ''  Who Is He ''" by (simp add: padded_env_def)
  have l: "lower ''  Who Is He '' = ''  who is he ''" by (simp add: lower_def lower_char_def)
  have r: "react Config padded_env ''  who is he '' fresh =
       (Done,
        fresh\<lparr>count := 1,
              csv_rows := [(''2025-01-01T10:00:00'', ''  who is he '', ''Vaibhav'')]\<rparr>,
        [Log DEBUG (CycleIndex 0 ''Vaibhav''), Log INFO (TriggerDetected ''Vaibhav''),
         Print ''Vaibhav'', Speak ''Vaibhav'',
         Log DEBUG (LoggedCsvRow ''2025-01-01T10:00:00'' ''  who is he '' ''Vaibhav'')])"
    by (simp add: react_def get_next_reply_def log_interaction_def Let_def Config_def
        padded_env_def fresh_def)
  have p: "py_in (PHRASE Config) ''  who is he ''" by (simp add: Config_def)
  have s: "snd (retry_loop Config padded_env [1..MAX_RETRY Config]) =
             [CallRecognizer 1, Log DEBUG (Recognized 1 ''  who is he '')]"
    using retry_loop_text [OF a b c d] by (simp add: l)
  from normalize_lowercase_only [OF a b c d, of fresh] show ?thesis
    by (simp add: l r p s del: py_in.simps)
qed

text \<open>
  Claim C2, as stated, fails: for the recognised text \<open>''  Who Is He ''\<close> the text that is
  checked and written to the CSV row still has its surrounding blanks, whereas lowercasing
  and trimming would give \<open>''who is he''\<close>.
\<close>

theorem normalize_trim_counterexample:
  "fst (retry_loop Config padded_env [1..MAX_RETRY Config])
     \<noteq> Proceed (spec_normalize ''  Who Is He '')
   \<and> spec_normalize ''  Who Is He '' = ''who is he''
   \<and> csv_rows (fst (snd (process_audio Config padded_env fresh)))
       = [(''2025-01-01T10:00:00'', ''  who is he '', ''Vaibhav'')]"
proof -
  have l: "lower ''  Who Is He '' = ''  who is he ''" by (simp add: lower_def lower_char_def)
  have n: "spec_normalize ''  Who Is He '' = ''who is he''"
    by (simp add: spec_normalize_def strip_def is_space_def l)
  have u: "[1..MAX_RETRY Config] = [1, 2, 3]"
    by (simp add: Config_def upto_rec1)
  have loop: "retry_loop Config padded_env [1..MAX_RETRY Config] =
           (Proceed ''  who is he '', [CallRecognizer 1, Log DEBUG (Recognized 1 ''  who is he '')])"
    by (simp add: u padded_env_def l)
  have p: "py_in (PHRASE Config) ''  who is he ''" by (simp add: Config_def)
  have r: "react Config padded_env ''  who is he '' fresh =
       (Done,
        fresh\<lparr>count := 1,
              csv_rows := [(''2025-01-01T10:00:00'', ''  who is he '', ''Vaibhav'')]\<rparr>,
        [Log DEBUG (CycleIndex 0 ''Vaibhav''), Log INFO (TriggerDetected ''Vaibhav''),
         Print ''Vaibhav'', Speak ''Vaibhav'',
         Log DEBUG (LoggedCsvRow ''2025-01-01T10:00:00'' ''  who is he '' ''Vaibhav'')])"
    by (simp add: react_def get_next_reply_def log_interaction_def Let_def Config_def
        padded_env_def fresh_def)
  have "csv_rows (fst (snd (process_audio Config padded_env fresh)))
       = [(''2025-01-01T10:00:00'', ''  who is he '', ''Vaibhav'')]"
    by (simp add: process_audio_def loop p r del: py_in.simps)
  then show ?thesis by (simp add: loop n)
qed

section \<open>Retries, aborts and the reaction\<close>

text \<open>
  Claim C4. Let the attempts before attempt \<open>k\<close> (within the retry bound) all fail with a
  request error. Each of them is followed by a one-second sleep and the next attempt. If
  attempt \<open>k\<close> returns text containing the phrase, the snippet gets exactly one reply, one
  speech request and (the file being writable) one CSV row. If attempt \<open>k\<close> is the last
  allowed one and fails with a request error too, the worker returns without sleeping:
  no reply, no CSV row, counter untouched. With the bound 3 and \<open>k = 3\<close> this is the
  scenario "error, error, then the phrase".
\<close>

theorem transient_retry_boundary:
  assumes "1 \<le> k" and "k \<le> MAX_RETRY cfg"
    and "\<forall>j. 1 \<le> j \<and> j < k \<longrightarrow> recognize_google e j = RequestError"
  shows "(recognize_google e k = Text t \<and> py_in (PHRASE cfg) (lower t) \<and> REPLIES cfg \<noteq> [] \<longrightarrow>
            process_audio cfg e st =
              (let reply = REPLIES cfg ! nat (count st mod int (length (REPLIES cfg)))
               in (Done,
                   st\<lparr>count := count st + 1,
                      csv_rows := (if csv_write_ok e
                                   then csv_rows st @ [(now e, lower t, reply)]
                                   else csv_rows st)\<rparr>,
                   concat (map (\<lambda>j. [CallRecognizer j, Log ERROR (ApiRequestError j), Sleep 1])
                               [1..k - 1])
                   @ [CallRecognizer k, Log DEBUG (Recognized k (lower t)),
                      Log DEBUG (CycleIndex (count st) reply), Log INFO (TriggerDetected reply),
                      Print reply, Speak reply]
                   @ (if speak_raises e then [Log ERROR TtsSpeakFailed] else [])
                   @ (if csv_write_ok e then [Log DEBUG (LoggedCsvRow (now e) (lower t) reply)]
                      else [Log ERROR ErrorWritingCsv]))))
         \<and> (recognize_google e k = RequestError \<and> k = MAX_RETRY cfg \<longrightarrow>
            process_audio cfg e st =
              (Done, st,
               concat (map (\<lambda>j. [CallRecognizer j, Log ERROR (ApiRequestError j), Sleep 1])
                           [1..k - 1])
               @ [CallRecognizer k, Log ERROR (ApiRequestError k)]))"
proof (intro conjI impI)
  assume h: "recognize_google e k = Text t \<and> py_in (PHRASE cfg) (lower t) \<and> REPLIES cfg \<noteq> []"
  then have loop: "retry_loop cfg e [1..MAX_RETRY cfg] =
           (Proceed (lower t),
            concat (map (\<lambda>j. [CallRecognizer j, Log ERROR (ApiRequestError j), Sleep 1]) [1..k - 1])
              @ [CallRecognizer k, Log DEBUG (Recognized k (lower t))])"
    using retry_loop_text [OF assms] by simp
  from h have r: "REPLIES cfg \<noteq> []" and p: "py_in (PHRASE cfg) (lower t)" by simp_all
  show "process_audio cfg e st =
              (let reply = REPLIES cfg ! nat (count st mod int (length (REPLIES cfg)))
               in (Done,
                   st\<lparr>count := count st + 1,
                      csv_rows := (if csv_write_ok e
                                   then csv_rows st @ [(now e, lower t, reply)]
                                   else csv_rows st)\<rparr>,
                   concat (map (\<lambda>j. [CallRecognizer j, Log ERROR (ApiRequestError j), Sleep 1])
                               [1..k - 1])
                   @ [CallRecognizer k, Log DEBUG (Recognized k (lower t)),
                      Log DEBUG (CycleIndex (count st) reply), Log INFO (TriggerDetected reply),
                      Print reply, Speak reply]
                   @ (if speak_raises e then [Log ERROR TtsSpeakFailed] else [])
                   @ (if csv_write_ok e then [Log DEBUG (LoggedCsvRow (now e) (lower t) reply)]
                      else [Log ERROR ErrorWritingCsv])))"
    by (simp add: process_audio_def loop p react_ok [OF r] Let_def)
next
  assume h: "recognize_google e k = RequestError \<and> k = MAX_RETRY cfg"
  then have all: "\<forall>j. 1 \<le> j \<and> j \<le> MAX_RETRY cfg \<longrightarrow> recognize_google e j = RequestError"
    using assms(3) by (metis order_le_less)
  have m: "1 \<le> MAX_RETRY cfg" using assms(1,2) by simp
  show "process_audio cfg e st =
              (Done, st,
               concat (map (\<lambda>j. [CallRecognizer j, Log ERROR (ApiRequestError j), Sleep 1])
                           [1..k - 1])
               @ [CallRecognizer k, Log ERROR (ApiRequestError k)])"
    using retry_loop_exhausted [OF m all] h by (simp add: process_audio_def)
qed

theorem transient_retry_boundary_witness:
  "MAX_RETRY Config = 3
   \<and> recognize_google flaky_env 1 = RequestError
   \<and> recognize_google flaky_env 2 = RequestError
   \<and> recognize_google flaky_env 3 = Text ''Who is he''
   \<and> process_audio Config flaky_env fresh =
       (Done,
        fresh\<lparr>count := 1,
              csv_rows := [(''2025-01-01T10:00:05'', ''who is he'', ''Vaibhav'')]\<rparr>,
        [CallRecognizer 1, Log ERROR (ApiRequestError 1), Sleep 1,
         CallRecognizer 2, Log ERROR (ApiRequestError 2), Sleep 1,
         CallRecognizer 3, Log DEBUG (Recognized 3 ''who is he''),
         Log DEBUG (CycleIndex 0 ''Vaibhav''), Log INFO (TriggerDetected ''Vaibhav''),
         Print ''Vaibhav'', Speak ''Vaibhav'',
         Log DEBUG (LoggedCsvRow ''2025-01-01T10:00:05'' ''who is he'' ''Vaibhav'')])
   \<and> recognize_google offline_env 3 = RequestError
   \<and> process_audio Config offline_env fresh =
       (Done, fresh,
        [CallRecognizer 1, Log ERROR (ApiRequestError 1), Sleep 1,
         CallRecognizer 2, Log ERROR (ApiRequestError 2), Sleep 1,
         CallRecognizer 3, Log ERROR (ApiRequestError 3)])"
proof -
  have a: "(1::int) \<le> 3" by simp
  have b: "3 \<le> MAX_RETRY Config" by (simp add: Config_def)
  have m: "MAX_RETRY Config = 3" by (simp add: Config_def)
  have c: "\<forall>j. 1 \<le> j \<and> j < 3 \<longrightarrow> recognize_google flaky_env j = RequestError"
    by (auto simp: flaky_env_def)
  have c': "\<forall>j. 1 \<le> j \<and> j < 3 \<longrightarrow> recognize_google offline_env j = RequestError"
    by (auto simp: offline_env_def)
  have l: "lower ''Who is he'' = ''who is he''" by (simp add: lower_def lower_char_def)
  have ph: "PHRASE Config = ''who is he''" by (simp add: Config_def)
  have pin: "py_in ''who is he'' ''who is he''" by simp
  have u: "[1..(2::int)] = [1, 2]" by (simp add: upto_rec1)
  have hit: "recognize_google flaky_env 3 = Text ''Who is he''
      \<and> py_in (PHRASE Config) (lower ''Who is he'') \<and> REPLIES Config \<noteq> []"
    using pin by (simp add: flaky_env_def l ph Config_def del: py_in.simps)
  have miss: "recognize_google offline_env 3 = RequestError \<and> 3 = MAX_RETRY Config"
    by (simp add: offline_env_def m)
  have first: "process_audio Config flaky_env fresh =
       (Done,
        fresh\<lparr>count := 1,
              csv_rows := [(''2025-01-01T10:00:05'', ''who is he'', ''Vaibhav'')]\<rparr>,
        [CallRecognizer 1, Log ERROR (ApiRequestError 1), Sleep 1,
         CallRecognizer 2, Log ERROR (ApiRequestError 2), Sleep 1,
         CallRecognizer 3, Log DEBUG (Recognized 3 ''who is he''),
         Log DEBUG (CycleIndex 0 ''Vaibhav''), Log INFO (TriggerDetected ''Vaibhav''),
         Print ''Vaibhav'', Speak ''Vaibhav'',
         Log DEBUG (LoggedCsvRow ''2025-01-01T10:00:05'' ''who is he'' ''Vaibhav'')])"
    using transient_retry_boundary [OF a b c, of "''Who is he''" fresh] hit
    by (simp add: l u Let_def Config_def flaky_env_def fresh_def del: py_in.simps)
  have second: "process_audio Config offline_env fresh =
       (Done, fresh,
        [CallRecognizer 1, Log ERROR (ApiRequestError 1), Sleep 1,
         CallRecognizer 2, Log ERROR (ApiRequestError 2), Sleep 1,
         CallRecognizer 3, Log ERROR (ApiRequestError 3)])"
    using transient_retry_boundary [OF a b c', of "''Who is he''" fresh] miss
    by (simp add: u)
  show ?thesis
    using first second m by (simp add: flaky_env_def offline_env_def)
qed

text \<open>
  Claim C5. When the recogniser reports that it understood nothing (on the first attempt,
  or after request errors on earlier attempts), the worker returns at once: the state is
  unchanged (no CSV row, counter not advanced), nothing is spoken, and the recogniser is
  not called again.
\<close>

theorem unrecognized_aborts:
  assumes "1 \<le> k" and "k \<le> MAX_RETRY cfg"
    and "\<forall>j. 1 \<le> j \<and> j < k \<longrightarrow> recognize_google e j = RequestError"
    and "recognize_google e k = UnknownValueError"
  shows "process_audio cfg e st =
           (Done, st,
            concat (map (\<lambda>j. [CallRecognizer j, Log ERROR (ApiRequestError j), Sleep 1])
                        [1..k - 1])
            @ [CallRecognizer k, Log WARNING CouldNotUnderstand])
         \<and> (\<forall>x \<in> set (snd (snd (process_audio cfg e st))).
               (\<forall>r. x \<noteq> Speak r) \<and> (\<forall>j. x = CallRecognizer j \<longrightarrow> j \<le> k))"
proof -
  have eq: "process_audio cfg e st =
           (Done, st,
            concat (map (\<lambda>j. [CallRecognizer j, Log ERROR (ApiRequestError j), Sleep 1])
                        [1..k - 1])
            @ [CallRecognizer k, Log WARNING CouldNotUnderstand])"
    using retry_loop_unknown [OF assms] by (simp add: process_audio_def)
  show ?thesis
    unfolding eq by auto
qed

theorem unrecognized_aborts_witness:
  "recognize_google silent_env 1 = RequestError
   \<and> recognize_google silent_env 2 = UnknownValueError
   \<and> process_audio Config silent_env fresh =
       (Done, fresh,
        [CallRecognizer 1, Log ERROR (ApiRequestError 1), Sleep 1,
         CallRecognizer 2, Log WARNING CouldNotUnderstand])"
proof -
  have a: "(1::int) \<le> 2" by simp
  have b: "2 \<le> MAX_RETRY Config" by (simp add: Config_def)
  have c: "\<forall>j. 1 \<le> j \<and> j < 2 \<longrightarrow> recognize_google silent_env j = RequestError"
    by (auto simp: silent_env_def)
  have d: "recognize_google silent_env 2 = UnknownValueError"
    by (simp add: silent_env_def)
  have u: "[1..(1::int)] = [1]" by (simp add: upto_rec1)
  from unrecognized_aborts [OF a b c d, of fresh] show ?thesis
    by (simp add: u silent_env_def)
qed

section \<open>The bounded queue\<close>

text \<open>
  Claim C6. When the queue already holds as many snippets as its (positive) capacity,
  \<^verbatim>\<open>put_nowait\<close> fails at once, and the callback drops the new snippet: the whole state,
  and so the queue's contents and their order, is what it was before, and the only
  thing that happens is one warning record. Nothing is retried.
\<close>

theorem full_queue_drops:
  assumes "0 < QUEUE_MAXSIZE cfg" and "int (length (audio_queue st)) = QUEUE_MAXSIZE cfg"
  shows "put_nowait (QUEUE_MAXSIZE cfg) (audio_queue st) audio = Inl QueueFull
         \<and> callback cfg audio st = (st, [Log WARNING QueueFullDropping])"
  using assms by (simp add: put_nowait_def callback_def)

theorem full_queue_drops_witness:
  "0 < QUEUE_MAXSIZE Config
   \<and> int (length (audio_queue (fresh\<lparr>audio_queue := [1..<33]\<rparr>))) = QUEUE_MAXSIZE Config
   \<and> put_nowait (QUEUE_MAXSIZE Config) [1..<33] 33 = Inl QueueFull
   \<and> callback Config 33 (fresh\<lparr>audio_queue := [1..<33]\<rparr>)
       = (fresh\<lparr>audio_queue := [1..<33]\<rparr>, [Log WARNING QueueFullDropping])"
proof -
  have a: "0 < QUEUE_MAXSIZE Config" by (simp add: Config_def)
  have b: "int (length (audio_queue (fresh\<lparr>audio_queue := [1..<33]\<rparr>))) = QUEUE_MAXSIZE Config"
    by (simp add: Config_def)
  from full_queue_drops [OF a b, of 33] a b show ?thesis by simp
qed

section \<open>Failures of the CSV sink\<close>

text \<open>
  Claim C8. If appending the row fails, \<^verbatim>\<open>log_interaction\<close> records one error and
  returns normally with the state unchanged: the row is not kept anywhere and no second
  attempt is made. The reaction that called it still ends normally. A later call for
  which the file can be written appends its own row, and only that row.
\<close>

theorem csv_failure_isolated:
  assumes "\<not> csv_write_ok e1" and "csv_write_ok e2" and "REPLIES cfg \<noteq> []"
  shows "log_interaction e1 text1 reply1 st = (st, [Log ERROR ErrorWritingCsv])
         \<and> fst (react cfg e1 text1 st) = Done
         \<and> csv_rows (fst (snd (react cfg e1 text1 st))) = csv_rows st
         \<and> log_interaction e2 text2 reply2 (fst (log_interaction e1 text1 reply1 st)) =
             (st\<lparr>csv_rows := csv_rows st @ [(now e2, text2, reply2)]\<rparr>,
              [Log DEBUG (LoggedCsvRow (now e2) text2 reply2)])
         \<and> fst (react cfg e2 text2 (fst (snd (react cfg e1 text1 st)))) = Done
         \<and> csv_rows (fst (snd (react cfg e2 text2 (fst (snd (react cfg e1 text1 st)))))) =
             csv_rows st @
               [(now e2, text2, REPLIES cfg ! nat ((count st + 1) mod int (length (REPLIES cfg))))]"
  using assms by (simp add: react_ok Let_def log_interaction_def)

theorem csv_failure_isolated_witness:
  "\<not> csv_write_ok readonly_env \<and> csv_write_ok padded_env \<and> REPLIES Config \<noteq> []
   \<and> react Config readonly_env ''who is he'' fresh =
       (Done, fresh\<lparr>count := 1\<rparr>,
        [Log DEBUG (CycleIndex 0 ''Vaibhav''), Log INFO (TriggerDetected ''Vaibhav''),
         Print ''Vaibhav'', Speak ''Vaibhav'', Log ERROR ErrorWritingCsv])
   \<and> csv_rows (fst (snd (react Config padded_env ''  who is he ''
                           (fst (snd (react Config readonly_env ''who is he'' fresh)))))) =
       [(''2025-01-01T10:00:00'', ''  who is he '', ''Manas'')]"
proof -
  have a: "\<not> csv_write_ok readonly_env" by (simp add: readonly_env_def)
  have b: "csv_write_ok padded_env" by (simp add: padded_env_def)
  have c: "REPLIES Config \<noteq> []" by (simp add: Config_def)
  have r: "react Config readonly_env ''who is he'' fresh =
       (Done, fresh\<lparr>count := 1\<rparr>,
        [Log DEBUG (CycleIndex 0 ''Vaibhav''), Log INFO (TriggerDetected ''Vaibhav''),
         Print ''Vaibhav'', Speak ''Vaibhav'', Log ERROR ErrorWritingCsv])"
    using react_ok [OF c, of readonly_env "''who is he''" fresh]
    by (simp add: Let_def readonly_env_def Config_def fresh_def)
  from csv_failure_isolated [OF a b c, of "''who is he''" "''Vaibhav''" fresh
      "''  who is he ''" "''Manas''"]
  have "csv_rows (fst (snd (react Config padded_env ''  who is he ''
                           (fst (snd (react Config readonly_env ''who is he'' fresh)))))) =
       csv_rows fresh @
         [(now padded_env, ''  who is he '',
           REPLIES Config ! nat ((count fresh + 1) mod int (length (REPLIES Config))))]"
    by blast
  then show ?thesis
    using a b c r by (simp add: Config_def fresh_def padded_env_def)
qed

section \<open>Substring detection\<close>

text \<open>\<open>py_in\<close> is containment as a contiguous block, anywhere in the text.\<close>

lemma startswith_iff: "startswith s p \<longleftrightarrow> (\<exists>v. s = p @ v)"
  by (induction s p rule: startswith.induct) auto

lemma py_in_iff: "py_in p s \<longleftrightarrow> (\<exists>u v. s = u @ p @ v)"
proof (induction s)
  case Nil
  then show ?case by auto
next
  case (Cons c cs)
  note IH = Cons.IH
  show ?case
  proof
    assume "py_in p (c # cs)"
    then consider "startswith (c # cs) p" | "py_in p cs" by auto
    then show "\<exists>u v. c # cs = u @ p @ v"
    proof cases
      case 1
      then obtain v where "c # cs = p @ v" using startswith_iff by blast
      then have "c # cs = [] @ p @ v" by simp
      then show ?thesis by blast
    next
      case 2
      then obtain u v where "cs = u @ p @ v" using IH by blast
      then have "c # cs = (c # u) @ p @ v" by simp
      then show ?thesis by blast
    qed
  next
    assume "\<exists>u v. c # cs = u @ p @ v"
    then obtain u v where uv: "c # cs = u @ p @ v" by blast
    show "py_in p (c # cs)"
    proof (cases u)
      case Nil
      with uv have "startswith (c # cs) p" using startswith_iff by auto
      then show ?thesis by simp
    next
      case (Cons d u')
      with uv have "cs = u' @ p @ v" by simp
      then have "py_in p cs" using IH by blast
      then show ?thesis by simp
    qed
  qed
qed

text \<open>
  Claim C9. Detection is containment, in both directions. \<open>py_in p s\<close> holds exactly when
  \<open>s\<close> is some text, then \<open>p\<close>, then some text. The phrase \<open>who is he\<close> is found inside
  \<open>i wonder who is he today\<close> although the two strings differ, and a snippet recognised as
  that text gets a reply: whatever the state and the rest of the environment, the worker
  takes the next reply, asks for it to be spoken and advances the counter. In general a
  snippet recognised as \<open>t\<close> gets a reply exactly when the phrase occurs somewhere in the
  lowercased \<open>t\<close>; otherwise the worker ends with the state as it was and nothing spoken,
  as for \<open>who is she\<close>.
\<close>

theorem substring_detection:
  "py_in (PHRASE Config) ''i wonder who is he today''
   \<and> PHRASE Config \<noteq> ''i wonder who is he today''
   \<and> (\<forall>u v. py_in (PHRASE Config) (u @ PHRASE Config @ v))
   \<and> process_audio Config (e\<lparr>recognize_google := \<lambda>k. Text ''i wonder who is he today''\<rparr>) st =
       (let reply = REPLIES Config ! nat (count st mod 3)
        in (Done,
            st\<lparr>count := count st + 1,
               csv_rows := (if csv_write_ok e
                            then csv_rows st @ [(now e, ''i wonder who is he today'', reply)]
                            else csv_rows st)\<rparr>,
            [CallRecognizer 1, Log DEBUG (Recognized 1 ''i wonder who is he today''),
             Log DEBUG (CycleIndex (count st) reply), Log INFO (TriggerDetected reply),
             Print reply, Speak reply]
            @ (if speak_raises e then [Log ERROR TtsSpeakFailed] else [])
            @ (if csv_write_ok e
               then [Log DEBUG (LoggedCsvRow (now e) ''i wonder who is he today'' reply)]
               else [Log ERROR ErrorWritingCsv])))
   \<and> (\<forall>p s. py_in p s = (\<exists>u v. s = u @ p @ v))
   \<and> (\<forall>t. process_audio Config (e\<lparr>recognize_google := \<lambda>k. Text t\<rparr>) st =
         (if \<exists>u v. lower t = u @ ''who is he'' @ v
          then (let reply = REPLIES Config ! nat (count st mod 3)
                in (Done,
                    st\<lparr>count := count st + 1,
                       csv_rows := (if csv_write_ok e
                                    then csv_rows st @ [(now e, lower t, reply)]
                                    else csv_rows st)\<rparr>,
                    [CallRecognizer 1, Log DEBUG (Recognized 1 (lower t)),
                     Log DEBUG (CycleIndex (count st) reply), Log INFO (TriggerDetected reply),
                     Print reply, Speak reply]
                    @ (if speak_raises e then [Log ERROR TtsSpeakFailed] else [])
                    @ (if csv_write_ok e
                       then [Log DEBUG (LoggedCsvRow (now e) (lower t) reply)]
                       else [Log ERROR ErrorWritingCsv])))
          else (Done, st, [CallRecognizer 1, Log DEBUG (Recognized 1 (lower t))])))
   \<and> \<not> py_in (PHRASE Config) ''who is she''
   \<and> process_audio Config (e\<lparr>recognize_google := \<lambda>k. Text ''who is she''\<rparr>) st =
       (Done, st, [CallRecognizer 1, Log DEBUG (Recognized 1 ''who is she'')])"
proof -
  have ph: "PHRASE Config = ''who is he''" by (simp add: Config_def)
  have pin: "py_in ''who is he'' ''i wonder who is he today''" by simp
  have pout: "\<not> py_in ''who is he'' ''who is she''" by simp
  have l: "lower ''i wonder who is he today'' = ''i wonder who is he today''"
    by (simp add: lower_def lower_char_def)
  have l': "lower ''who is she'' = ''who is she''"
    by (simp add: lower_def lower_char_def)
  have u: "[1..MAX_RETRY Config] = [1, 2, 3]" by (simp add: Config_def upto_rec1)
  have r: "REPLIES Config \<noteq> []" by (simp add: Config_def)
  have len: "int (length (REPLIES Config)) = 3" by (simp add: Config_def)
  have loop: "retry_loop Config (e\<lparr>recognize_google := \<lambda>k. Text t\<rparr>) [1..MAX_RETRY Config] =
           (Proceed (lower t), [CallRecognizer 1, Log DEBUG (Recognized 1 (lower t))])" for t
    by (simp add: u)
  have general: "process_audio Config (e\<lparr>recognize_google := \<lambda>k. Text t\<rparr>) st =
         (if py_in ''who is he'' (lower t)
          then (let reply = REPLIES Config ! nat (count st mod 3)
                in (Done,
                    st\<lparr>count := count st + 1,
                       csv_rows := (if csv_write_ok e
                                    then csv_rows st @ [(now e, lower t, reply)]
                                    else csv_rows st)\<rparr>,
                    [CallRecognizer 1, Log DEBUG (Recognized 1 (lower t)),
                     Log DEBUG (CycleIndex (count st) reply), Log INFO (TriggerDetected reply),
                     Print reply, Speak reply]
                    @ (if speak_raises e then [Log ERROR TtsSpeakFailed] else [])
                    @ (if csv_write_ok e
                       then [Log DEBUG (LoggedCsvRow (now e) (lower t) reply)]
                       else [Log ERROR ErrorWritingCsv])))
          else (Done, st, [CallRecognizer 1, Log DEBUG (Recognized 1 (lower t))]))" for t
    by (simp add: process_audio_def loop ph react_ok [OF r] len Let_def del: py_in.simps)
  have c1: "py_in (PHRASE Config) ''i wonder who is he today''"
    using pin by (simp only: ph)
  have c2: "PHRASE Config \<noteq> ''i wonder who is he today''"
    by (simp add: ph)
  have c3: "\<forall>u v. py_in (PHRASE Config) (u @ PHRASE Config @ v)"
    using py_in_iff by blast
  have c4: "process_audio Config (e\<lparr>recognize_google := \<lambda>k. Text ''i wonder who is he today''\<rparr>) st =
       (let reply = REPLIES Config ! nat (count st mod 3)
        in (Done,
            st\<lparr>count := count st + 1,
               csv_rows := (if csv_write_ok e
                            then csv_rows st @ [(now e, ''i wonder who is he today'', reply)]
                            else csv_rows st)\<rparr>,
            [CallRecognizer 1, Log DEBUG (Recognized 1 ''i wonder who is he today''),
             Log DEBUG (CycleIndex (count st) reply), Log INFO (TriggerDetected reply),
             Print reply, Speak reply]
            @ (if speak_raises e then [Log ERROR TtsSpeakFailed] else [])
            @ (if csv_write_ok e
               then [Log DEBUG (LoggedCsvRow (now e) ''i wonder who is he today'' reply)]
               else [Log ERROR ErrorWritingCsv])))"
    using general [of "''i wonder who is he today''"] pin by (simp only: l if_True)
  have c5: "\<forall>p s. py_in p s = (\<exists>u v. s = u @ p @ v)"
    using py_in_iff by blast
  have c6: "\<forall>t. process_audio Config (e\<lparr>recognize_google := \<lambda>k. Text t\<rparr>) st =
         (if \<exists>u v. lower t = u @ ''who is he'' @ v
          then (let reply = REPLIES Config ! nat (count st mod 3)
                in (Done,
                    st\<lparr>count := count st + 1,
                       csv_rows := (if csv_write_ok e
                                    then csv_rows st @ [(now e, lower t, reply)]
                                    else csv_rows st)\<rparr>,
                    [CallRecognizer 1, Log DEBUG (Recognized 1 (lower t)),
                     Log DEBUG (CycleIndex (count st) reply), Log INFO (TriggerDetected reply),
                     Print reply, Speak reply]
                    @ (if speak_raises e then [Log ERROR TtsSpeakFailed] else [])
                    @ (if csv_write_ok e
                       then [Log DEBUG (LoggedCsvRow (now e) (lower t) reply)]
                       else [Log ERROR ErrorWritingCsv])))
          else (Done, st, [CallRecognizer 1, Log DEBUG (Recognized 1 (lower t))]))"
    using general unfolding py_in_iff by (rule allI)
  have c7: "\<not> py_in (PHRASE Config) ''who is she''"
    unfolding ph by (rule pout)
  have c8: "process_audio Config (e\<lparr>recognize_google := \<lambda>k. Text ''who is she''\<rparr>) st =
       (Done, st, [CallRecognizer 1, Log DEBUG (Recognized 1 ''who is she'')])"
    using general [of "''who is she''"] pout by (simp only: l' if_False)
  show ?thesis
    using c1 c2 c3 c4 c5 c6 c7 c8 by (intro conjI)
qed

section \<open>The two programs choose the same reply\<close>

text \<open>
  Claim C10. Both files hold the same reply list, and for every counter value the name
  picked by the main loop of \<^verbatim>\<open>voice.py\<close> is the reply \<^verbatim>\<open>_get_next_reply\<close> of
  \<^verbatim>\<open>bibb.py\<close> returns at that counter value; both then add one to the counter.
\<close>

theorem voice_agrees_with_bibb:
  "REPLIES Config = voice_REPLIES
   \<and> get_next_reply Config st =
       Inr (fst (voice_pick (count st)), st\<lparr>count := snd (voice_pick (count st))\<rparr>,
            [Log DEBUG (CycleIndex (count st) (fst (voice_pick (count st))))])
   \<and> voice_main_step ''who is he'' (count st) =
       (snd (voice_pick (count st)), [Print (fst (voice_pick (count st)))])"
  by (simp add: get_next_reply_def voice_pick_def voice_main_step_def Config_def
      voice_REPLIES_def Let_def)

section \<open>Two workers in the reply cycler at once\<close>

text \<open>A worker that is scheduled five times in a row, with nobody in between, does what
  \<open>get_next_reply\<close> does.\<close>

lemma worker_alone:
  "run_schedule cfg [0, 0, 0, 0, 0] ([Line295], st, []) =
     (case get_next_reply cfg st of
        Inl err \<Rightarrow> ([Crashed err], st, [])
      | Inr (reply, st', ev) \<Rightarrow> ([Returned reply], st', ev))"
  by (simp add: step_worker_def get_next_reply_def Let_def)

text \<open>Two workers, one after the other, get consecutive replies.\<close>

lemma workers_in_turn:
  "run_schedule Config [0, 0, 0, 0, 0, 1, 1, 1, 1, 1] ([Line295, Line295], fresh, []) =
     ([Returned ''Vaibhav'', Returned ''Manas''], fresh\<lparr>count := 2\<rparr>,
      [Log DEBUG (CycleIndex 0 ''Vaibhav''), Log DEBUG (CycleIndex 1 ''Manas'')])"
  by (simp add: step_worker_def Config_def fresh_def)

text \<open>
  Claim C1 does not hold of the source. Detections are made by worker threads, and two of
  them can be inside the reply cycler together. Let the first detection (worker 0, counter
  value 0) execute lines 295 to 297, let the second detection (worker 1) do the same
  before worker 0 has reached the increment, and let both finish. The second detection
  of the process is then given \<open>Vaibhav\<close>, which is \<open>replies[0]\<close>, whereas
  \<open>replies[1 mod 3]\<close> is \<open>Manas\<close>.
\<close>

theorem second_detection_gets_first_reply:
  "run_schedule Config [0, 0, 0, 1, 1, 1, 0, 0, 1, 1] ([Line295, Line295], fresh, []) =
     ([Returned ''Vaibhav'', Returned ''Vaibhav''], fresh\<lparr>count := 2\<rparr>,
      [Log DEBUG (CycleIndex 0 ''Vaibhav''), Log DEBUG (CycleIndex 0 ''Vaibhav'')])
   \<and> REPLIES Config ! (1 mod length (REPLIES Config)) = ''Manas''
   \<and> REPLIES Config ! (0 mod length (REPLIES Config)) = ''Vaibhav''"
  by (simp add: step_worker_def Config_def fresh_def)

text \<open>
  Claim C3 does not hold of the source. Two workers detect the phrase while the counter
  is 0. The first executes line 295, then the second executes line 295, then each runs to
  its \<^verbatim>\<open>return\<close>. Both return \<open>Vaibhav\<close> and the counter ends at 2, so \<open>Manas\<close> is
  never handed out: one reply is duplicated and one is skipped.
\<close>

theorem concurrent_replies_duplicated:
  "run_schedule Config [0, 1, 0, 0, 0, 0, 1, 1, 1, 1] ([Line295, Line295], fresh, []) =
     ([Returned ''Vaibhav'', Returned ''Vaibhav''], fresh\<lparr>count := 2\<rparr>,
      [Log DEBUG (CycleIndex 0 ''Vaibhav''), Log DEBUG (CycleIndex 1 ''Vaibhav'')])"
  by (simp add: step_worker_def Config_def fresh_def)

section \<open>Shutdown\<close>

lemma queue_get_bound: "queue_get arr t = (x, t') \<Longrightarrow> t \<le> t' \<and> t' \<le> t + GET_TIMEOUT"
  by (auto simp: queue_get_def split: arrival.splits if_splits)

lemma process_queue_stopped: "T \<le> t \<Longrightarrow> process_queue T arrivals t = ([], Exited t)"
  by (cases arrivals) simp_all

lemma spawn_before_deadline:
  "(audio, s) \<in> set (fst (process_queue T arrivals t)) \<Longrightarrow> s < T + GET_TIMEOUT"
proof (induction arrivals arbitrary: t)
  case Nil
  then show ?case by simp
next
  case (Cons arr rest)
  show ?case
  proof (cases "T \<le> t")
    case True
    with Cons.prems show ?thesis by simp
  next
    case False
    obtain x t' where g: "queue_get arr t = (x, t')" by (cases "queue_get arr t")
    then have b: "t' \<le> t + GET_TIMEOUT" using queue_get_bound by blast
    show ?thesis
    proof (cases x)
      case None
      with Cons.prems False g have "(audio, s) \<in> set (fst (process_queue T rest t'))" by simp
      then show ?thesis by (rule Cons.IH)
    next
      case (Some a)
      with Cons.prems False g
      have "(audio, s) = (a, t') \<or> (audio, s) \<in> set (fst (process_queue T rest t'))"
        by (auto split: prod.splits)
      then show ?thesis
      proof
        assume "(audio, s) = (a, t')"
        then show ?thesis using b False by simp
      next
        assume "(audio, s) \<in> set (fst (process_queue T rest t'))"
        then show ?thesis by (rule Cons.IH)
      qed
    qed
  qed
qed

lemma one_spawn_after_signal:
  "length (filter (\<lambda>(audio, s). T \<le> s) (fst (process_queue T arrivals t))) \<le> 1"
proof (induction arrivals arbitrary: t)
  case Nil
  then show ?case by simp
next
  case (Cons arr rest)
  show ?case
  proof (cases "T \<le> t")
    case True
    then show ?thesis by simp
  next
    case False
    obtain x t' where g: "queue_get arr t = (x, t')" by (cases "queue_get arr t")
    show ?thesis
    proof (cases x)
      case None
      with False g Cons.IH [of t'] show ?thesis by simp
    next
      case (Some a)
      show ?thesis
      proof (cases "T \<le> t'")
        case True
        then have "process_queue T rest t' = ([], Exited t')" by (rule process_queue_stopped)
        with False g Some True show ?thesis by simp
      next
        case late: False
        obtain sp e where pq: "process_queue T rest t' = (sp, e)"
          by (cases "process_queue T rest t'")
        with False g Some late Cons.IH [of t'] show ?thesis
          by simp
      qed
    qed
  qed
qed

lemma exit_time:
  "snd (process_queue T arrivals t) = Exited te \<Longrightarrow> T \<le> te \<and> (te = t \<or> te < T + GET_TIMEOUT)"
proof (induction arrivals arbitrary: t)
  case Nil
  then show ?case by (simp split: if_splits)
next
  case (Cons arr rest)
  show ?case
  proof (cases "T \<le> t")
    case True
    with Cons.prems show ?thesis by simp
  next
    case False
    obtain x t' where g: "queue_get arr t = (x, t')" by (cases "queue_get arr t")
    then have b: "t' \<le> t + GET_TIMEOUT" using queue_get_bound by blast
    from Cons.prems False g have "snd (process_queue T rest t') = Exited te"
      by (cases x) (simp_all split: prod.splits)
    then have "T \<le> te \<and> (te = t' \<or> te < T + GET_TIMEOUT)" by (rule Cons.IH)
    then show ?thesis using b False by auto
  qed
qed

lemma still_running_early:
  "snd (process_queue T arrivals t) = StillRunning t' \<Longrightarrow> t' < T"
proof (induction arrivals arbitrary: t)
  case Nil
  then show ?case by (simp split: if_splits)
next
  case (Cons arr rest)
  show ?case
  proof (cases "T \<le> t")
    case True
    with Cons.prems show ?thesis by simp
  next
    case False
    obtain x u where g: "queue_get arr t = (x, u)" by (cases "queue_get arr t")
    from Cons.prems False g have "snd (process_queue T rest u) = StillRunning t'"
      by (cases x) (simp_all split: prod.splits)
    then show ?thesis by (rule Cons.IH)
  qed
qed

text \<open>
  Claim C7, as amended. Let the handler clear the flag at time \<open>T\<close>. Every thread the
  dispatch loop starts is started before \<open>T\<close> plus one dequeue timeout, and at most one is
  started at or after \<open>T\<close>; a loop head reached at or after \<open>T\<close> starts nothing and leaves,
  and the loop is left no earlier than \<open>T\<close> and (unless it was entered after \<open>T\<close>) before
  \<open>T\<close> plus the timeout; as long as the loop has not been left, its clock is before \<open>T\<close>.
  Neither the signal nor the loop interrupts a worker, but workers
  are daemon threads that nobody joins: a worker started runs to completion exactly when
  it finishes by the time the loop is left, and is abandoned otherwise.
\<close>

theorem shutdown_bounded:
  "(\<forall>(audio, s) \<in> set (fst (process_queue T arrivals t)). s < T + GET_TIMEOUT)
   \<and> length (filter (\<lambda>(audio, s). T \<le> s) (fst (process_queue T arrivals t))) \<le> 1
   \<and> (T \<le> t \<longrightarrow> process_queue T arrivals t = ([], Exited t))
   \<and> (\<forall>te. snd (process_queue T arrivals t) = Exited te \<longrightarrow>
          T \<le> te \<and> (te = t \<or> te < T + GET_TIMEOUT))
   \<and> (\<forall>t'. snd (process_queue T arrivals t) = StillRunning t' \<longrightarrow> t' < T)
   \<and> (\<forall>workers te. run cfg T arrivals envs latency = Some (workers, te) \<longrightarrow>
          snd (process_queue T arrivals 0) = Exited te
          \<and> map (\<lambda>(audio, s, f). (audio, s)) workers = fst (process_queue T arrivals 0)
          \<and> (\<forall>(audio, s, f) \<in> set workers.
                f = (if s + worker_time cfg (envs audio) (latency audio) \<le> te
                     then Completed else Abandoned)))"
proof (intro conjI)
  show "\<forall>(audio, s) \<in> set (fst (process_queue T arrivals t)). s < T + GET_TIMEOUT"
    using spawn_before_deadline by fastforce
  show "length (filter (\<lambda>(audio, s). T \<le> s) (fst (process_queue T arrivals t))) \<le> 1"
    by (rule one_spawn_after_signal)
  show "T \<le> t \<longrightarrow> process_queue T arrivals t = ([], Exited t)"
    using process_queue_stopped by blast
  show "\<forall>te. snd (process_queue T arrivals t) = Exited te \<longrightarrow>
          T \<le> te \<and> (te = t \<or> te < T + GET_TIMEOUT)"
    using exit_time by blast
  show "\<forall>t'. snd (process_queue T arrivals t) = StillRunning t' \<longrightarrow> t' < T"
    using still_running_early by blast
  show "\<forall>workers te. run cfg T arrivals envs latency = Some (workers, te) \<longrightarrow>
          snd (process_queue T arrivals 0) = Exited te
          \<and> map (\<lambda>(audio, s, f). (audio, s)) workers = fst (process_queue T arrivals 0)
          \<and> (\<forall>(audio, s, f) \<in> set workers.
                f = (if s + worker_time cfg (envs audio) (latency audio) \<le> te
                     then Completed else Abandoned))"
  proof (intro allI impI)
    fix workers te
    assume r: "run cfg T arrivals envs latency = Some (workers, te)"
    obtain spawned e where pq: "process_queue T arrivals 0 = (spawned, e)"
      by (cases "process_queue T arrivals 0")
    from r pq have e: "e = Exited te"
      by (cases e) (simp_all add: run_def)
    from r pq e have w: "workers = map (\<lambda>(audio, s).
                       (audio, s,
                        if s + worker_time cfg (envs audio) (latency audio) \<le> te
                        then Completed else Abandoned)) spawned"
      by (simp add: run_def)
    have m: "map (\<lambda>(audio, s, f). (audio, s)) workers = spawned"
      unfolding w by (induction spawned) auto
    have f: "\<forall>(audio, s, f) \<in> set workers.
                f = (if s + worker_time cfg (envs audio) (latency audio) \<le> te
                     then Completed else Abandoned)"
      unfolding w by auto
    show "snd (process_queue T arrivals 0) = Exited te
          \<and> map (\<lambda>(audio, s, f). (audio, s)) workers = fst (process_queue T arrivals 0)
          \<and> (\<forall>(audio, s, f) \<in> set workers.
                f = (if s + worker_time cfg (envs audio) (latency audio) \<le> te
                     then Completed else Abandoned))"
      using pq e m f by simp
  qed
qed

lemma flaky_worker_time: "worker_time Config flaky_env n = n + 2000"
  by (simp add: worker_time_def Config_def flaky_env_def upto_rec1)

lemma padded_worker_time: "worker_time Config padded_env n = n"
  by (simp add: worker_time_def Config_def padded_env_def upto_rec1)

theorem shutdown_bounded_witness:
  "process_queue 500 [Arrives (1::nat) 400, Arrives 2 300, Nothing] 0 =
     ([(1, 400), (2, 700)], Exited 700)
   \<and> 400 < 500 + GET_TIMEOUT \<and> 700 < 500 + GET_TIMEOUT
   \<and> process_queue 500 [Arrives (3::nat) 0] 500 = ([], Exited 500)
   \<and> process_queue 500 [Arrives (4::nat) 100] 0 = ([(4, 100)], StillRunning 100)
   \<and> run Config 500 [Arrives (1::nat) 400, Arrives 2 300, Nothing]
         (\<lambda>audio. if audio = 1 then padded_env else flaky_env) (\<lambda>audio. 100) =
       Some ([(1, 400, Completed), (2, 700, Abandoned)], 700)"
proof -
  have pq: "process_queue 500 [Arrives (1::nat) 400, Arrives 2 300, Nothing] 0 =
     ([(1, 400), (2, 700)], Exited 700)"
    by (simp add: queue_get_def GET_TIMEOUT_def)
  have r: "run Config 500 [Arrives (1::nat) 400, Arrives 2 300, Nothing]
         (\<lambda>audio. if audio = 1 then padded_env else flaky_env) (\<lambda>audio. 100) =
       Some ([(1, 400, Completed), (2, 700, Abandoned)], 700)"
    unfolding run_def pq by (simp add: flaky_worker_time padded_worker_time)
  have late: "(500::nat) \<le> 500" by simp
  note a = shutdown_bounded [of 500 "[Arrives (1::nat) 400, Arrives 2 300, Nothing]" 0 Config
      "\<lambda>audio. if audio = 1 then padded_env else flaky_env" "\<lambda>audio. 100"]
  note b = shutdown_bounded [of 500 "[Arrives (3::nat) 0]" 500 Config
      "\<lambda>audio. flaky_env" "\<lambda>audio. 0"]
  from a have "\<forall>(audio, s) \<in> set (fst (process_queue 500
                  [Arrives (1::nat) 400, Arrives 2 300, Nothing] 0)). s < 500 + GET_TIMEOUT"
    by blast
  then have bounds: "400 < 500 + GET_TIMEOUT \<and> 700 < 500 + GET_TIMEOUT"
    unfolding pq by simp
  from b late have stopped: "process_queue 500 [Arrives (3::nat) 0] 500 = ([], Exited 500)"
    by blast
  have sr: "process_queue 500 [Arrives (4::nat) 100] 0 = ([(4, 100)], StillRunning 100)"
    by (simp add: queue_get_def GET_TIMEOUT_def)
  note c = shutdown_bounded [of 500 "[Arrives (4::nat) 100]" 0 Config
      "\<lambda>audio. flaky_env" "\<lambda>audio. 0"]
  from c sr have early: "(100::nat) < 500"
    by simp
  show ?thesis
    using pq r bounds stopped sr early by simp
qed

text \<open>
  Claim C7, as stated, fails in its second half. The flag is cleared at 500 ms. A snippet
  taken from the queue at 400 ms gets a worker whose recogniser is unreachable twice and
  then returns the phrase, so the worker needs two sleeps of one second. The next
  \<^verbatim>\<open>get\<close> times out at 1400 ms, the loop is left and the process ends, 1000 ms before
  the worker could have replied: the worker started before the signal does not run to
  completion.
\<close>

theorem spawned_worker_abandoned:
  "run Config 500 [Arrives (1::nat) 400, Nothing] (\<lambda>audio. flaky_env) (\<lambda>audio. 0) =
     Some ([(1, 400, Abandoned)], 1400)
   \<and> worker_time Config flaky_env 0 = 2000
   \<and> fst (process_audio Config flaky_env fresh) = Done
   \<and> csv_rows (fst (snd (process_audio Config flaky_env fresh))) =
       [(''2025-01-01T10:00:05'', ''who is he'', ''Vaibhav'')]"
proof -
  have pq: "process_queue 500 [Arrives (1::nat) 400, Nothing] 0 = ([(1, 400)], Exited 1400)"
    by (simp add: queue_get_def GET_TIMEOUT_def)
  have r: "run Config 500 [Arrives (1::nat) 400, Nothing] (\<lambda>audio. flaky_env) (\<lambda>audio. 0) =
     Some ([(1, 400, Abandoned)], 1400)"
    unfolding run_def pq by (simp add: flaky_worker_time)
  have u: "[1..MAX_RETRY Config] = [1, 2, 3]" by (simp add: Config_def upto_rec1)
  have m: "MAX_RETRY Config = 3" by (simp add: Config_def)
  have l: "lower ''Who is he'' = ''who is he''" by (simp add: lower_def lower_char_def)
  have loop: "retry_loop Config flaky_env [1..MAX_RETRY Config] =
      (Proceed ''who is he'',
       [CallRecognizer 1, Log ERROR (ApiRequestError 1), Sleep 1,
        CallRecognizer 2, Log ERROR (ApiRequestError 2), Sleep 1,
        CallRecognizer 3, Log DEBUG (Recognized 3 ''who is he'')])"
    unfolding u by (simp add: l flaky_env_def m)
  have ph: "PHRASE Config = ''who is he''" by (simp add: Config_def)
  have pin: "py_in ''who is he'' ''who is he''" by simp
  have rp: "REPLIES Config \<noteq> []" by (simp add: Config_def)
  have rr: "react Config flaky_env ''who is he'' fresh =
       (Done,
        fresh\<lparr>count := 1,
              csv_rows := [(''2025-01-01T10:00:05'', ''who is he'', ''Vaibhav'')]\<rparr>,
        [Log DEBUG (CycleIndex 0 ''Vaibhav''), Log INFO (TriggerDetected ''Vaibhav''),
         Print ''Vaibhav'', Speak ''Vaibhav'',
         Log DEBUG (LoggedCsvRow ''2025-01-01T10:00:05'' ''who is he'' ''Vaibhav'')])"
    using react_ok [OF rp, of flaky_env "''who is he''" fresh]
    by (simp add: Let_def Config_def flaky_env_def fresh_def)
  have p: "process_audio Config flaky_env fresh =
       (Done,
        fresh\<lparr>count := 1,
              csv_rows := [(''2025-01-01T10:00:05'', ''who is he'', ''Vaibhav'')]\<rparr>,
        [CallRecognizer 1, Log ERROR (ApiRequestError 1), Sleep 1,
         CallRecognizer 2, Log ERROR (ApiRequestError 2), Sleep 1,
         CallRecognizer 3, Log DEBUG (Recognized 3 ''who is he''),
         Log DEBUG (CycleIndex 0 ''Vaibhav''), Log INFO (TriggerDetected ''Vaibhav''),
         Print ''Vaibhav'', Speak ''Vaibhav'',
         Log DEBUG (LoggedCsvRow ''2025-01-01T10:00:05'' ''who is he'' ''Vaibhav'')])"
    by (simp add: process_audio_def loop ph pin rr del: py_in.simps)
  show ?thesis
    using r p flaky_worker_time [of 0] by simp
qed

end
